theory Spec2Isabelle
  imports Complex_Main "HOL-Library.Product_Lexorder"
begin

section \<open>Errors\<close>

text \<open>
  A Python exception is modelled by its class together with the place that raises it:
  a check written in the notebooks themselves, the Python runtime (list indexing,
  attribute lookup), or the external libraries (torch, torch_geometric, dgl).
\<close>

datatype site = RepositoryCheck | PythonRuntime | Library

datatype exn = AssertionError | IndexError | ValueError | RuntimeError | AttributeError
  | DGLError | DownloadError

type_synonym error = "site \<times> exn"

section \<open>Tensors and the random generator\<close>

text \<open>
  A float tensor of shape \<open>(n, d)\<close> is the list of its \<open>n\<close> rows, each a list of \<open>d\<close>
  reals; a tensor without rows is the empty list, whatever its second dimension.
  Floating-point rounding is not modelled. An integer index tensor is an \<open>int list\<close>;
  an edge index of shape \<open>(2, E)\<close> is the list of its \<open>E\<close> columns \<open>(source, target)\<close>.
\<close>

type_synonym tensor = "real list list"

type_synonym edge_index = "(int \<times> int) list"

definition width :: "tensor \<Rightarrow> nat" where
  "width t = (case t of [] \<Rightarrow> 0 | r # _ \<Rightarrow> length r)"

definition has_shape :: "nat \<Rightarrow> nat \<Rightarrow> tensor \<Rightarrow> bool" where
  "has_shape n d t = (length t = n \<and> list_all (\<lambda>r. length r = d) t)"

definition zeros :: "nat \<Rightarrow> nat \<Rightarrow> tensor" where
  "zeros n d = replicate n (replicate d 0)"

text \<open>
  The global random generator of torch is a piece of state. It is modelled by the
  streams of values it is going to deliver: raw integers (consumed by \<open>torch.randint\<close>)
  and reals (consumed by \<open>torch.randn\<close> and \<open>torch.rand\<close>). The distributions are not
  modelled: every stream is possible.
\<close>

record rng =
  ints :: "nat \<Rightarrow> nat"
  reals :: "nat \<Rightarrow> real"

definition skip_ints :: "nat \<Rightarrow> rng \<Rightarrow> rng" where
  "skip_ints k g = g\<lparr>ints := (\<lambda>i. ints g (i + k))\<rparr>"

definition skip_reals :: "nat \<Rightarrow> rng \<Rightarrow> rng" where
  "skip_reals k g = g\<lparr>reals := (\<lambda>i. reals g (i + k))\<rparr>"

text \<open>
  External library operation \<open>torch.randint(low, high, (size,))\<close>, from its documented
  contract: \<open>size\<close> integers drawn from \<open>[low, high)\<close>; it raises when the range is
  empty or the size negative.
\<close>

definition randint :: "int \<Rightarrow> int \<Rightarrow> int \<Rightarrow> rng \<Rightarrow> error + (int list \<times> rng)" where
  "randint low high sz g =
     (if sz < 0 \<or> high \<le> low then Inl (Library, RuntimeError)
      else Inr (map (\<lambda>k. low + int (ints g k) mod (high - low)) [0..<nat sz],
                skip_ints (nat sz) g))"

text \<open>
  External library operation \<open>torch.randn(n, d)\<close>: an \<open>n \<times> d\<close> tensor of fresh samples,
  filled row by row; a negative dimension raises.
\<close>

definition randn :: "int \<Rightarrow> int \<Rightarrow> rng \<Rightarrow> error + (tensor \<times> rng)" where
  "randn n d g =
     (if n < 0 \<or> d < 0 then Inl (Library, RuntimeError)
      else Inr (map (\<lambda>i. map (\<lambda>j. reals g (i * nat d + j)) [0..<nat d]) [0..<nat n],
                skip_reals (nat n * nat d) g))"

text \<open>External library operation \<open>torch.rand(n)\<close>: a vector of \<open>n\<close> fresh samples.\<close>

definition rand :: "nat \<Rightarrow> rng \<Rightarrow> real list \<times> rng" where
  "rand n g = (map (reals g) [0..<n], skip_reals n g)"

text \<open>
  External library operation \<open>torch_geometric.utils.erdos_renyi_graph(num_nodes,
  edge_prob)\<close> (undirected): every pair \<open>i < j\<close> of \<open>torch.combinations\<close> is kept when
  its sample is below \<open>edge_prob\<close>; \<open>to_undirected\<close> then adds the reversed edges and
  coalesces (sorts and removes duplicates).
\<close>

definition erdos_renyi_graph :: "int \<Rightarrow> real \<Rightarrow> rng \<Rightarrow> error + (edge_index \<times> rng)" where
  "erdos_renyi_graph num_nodes edge_prob g =
     (if num_nodes < 0 then Inl (Library, RuntimeError)
      else
        let idx = concat (map (\<lambda>i. map (\<lambda>j. (i, j)) [i + 1..num_nodes - 1]) [0..num_nodes - 1]);
            (u, g') = rand (length idx) g;
            kept = map fst (filter (\<lambda>(e, s). s < edge_prob) (zip idx u))
        in Inr (sort (remdups (kept @ map prod.swap kept)), g'))"

section \<open>Notebook 3.dataloader: the graph generator and the dataset class\<close>

text \<open>
  A \<open>torch_geometric.data.Data\<close> object is a store of named tensors. The attributes the
  notebooks attach are fields; an attribute that was not given is \<open>None\<close>. The graph
  label \<open>y\<close> has shape \<open>(1, 1)\<close>; its entry is \<open>None\<close> where float division yields NaN.
  The library reads the number of nodes from the first dimension of \<open>x\<close>.
\<close>

record Data =
  x :: tensor
  edge_index :: edge_index
  edge_attr :: "tensor option"
  y :: "real option list list option"
  dummy :: "tensor option"

definition num_nodes :: "'a Data_scheme \<Rightarrow> nat" where
  "num_nodes g = length (x g)"

text \<open>
  \<^verbatim>\<open>
  def generate_er_graph(num_nodes, edge_prob, feat_dim=16):
      edge_idx = erdos_renyi_graph(num_nodes=num_nodes, edge_prob=edge_prob)
      x = torch.randn(num_nodes, feat_dim)
      y = (x.sum() / num_nodes).view(1,1)
      dummy = torch.randn(num_nodes, 32)
      g = Data(x=x, edge_index=edge_idx, y=y, dummy=dummy)
      return g
  \<close>
\<close>

definition generate_er_graph :: "int \<Rightarrow> real \<Rightarrow> int \<Rightarrow> rng \<Rightarrow> error + (Data \<times> rng)" where
  "generate_er_graph n edge_prob feat_dim g =
     (case erdos_renyi_graph n edge_prob g of
        Inl e \<Rightarrow> Inl e
      | Inr (edge_idx, g1) \<Rightarrow>
          (case randn n feat_dim g1 of
             Inl e \<Rightarrow> Inl e
           | Inr (xs, g2) \<Rightarrow>
               let ys = [[if n = 0 then None else Some (sum_list (concat xs) / real_of_int n)]]
               in (case randn n 32 g2 of
                     Inl e \<Rightarrow> Inl e
                   | Inr (d, g3) \<Rightarrow>
                       Inr (\<lparr>x = xs, edge_index = edge_idx, edge_attr = None,
                             y = Some ys, dummy = Some d\<rparr>, g3))))"

text \<open>
  \<^verbatim>\<open>
  class ERDataset(Dataset):
      def __init__(self, num_graphs, min_num_nodes=32, max_num_nodes=64, edge_prob=0.3):
          num_nodes = torch.randint(min_num_nodes, max_num_nodes, (num_graphs,))
          self.gs = [
              generate_er_graph(num_nodes[i], edge_prob) for i in range(num_graphs)
          ]
      def __getitem__(self, index):
          return self.gs[index]
      def __len__(self):
          return len(self.gs)
  \<close>
  The list comprehension runs \<open>generate_er_graph\<close> once per index, in order, each call
  continuing with the generator state the previous one left.
\<close>

record ERDataset =
  gs :: "Data list"

fun generate_all :: "int list \<Rightarrow> real \<Rightarrow> nat list \<Rightarrow> rng \<Rightarrow> error + (Data list \<times> rng)" where
  "generate_all ns edge_prob [] g = Inr ([], g)"
| "generate_all ns edge_prob (i # is) g =
     (case generate_er_graph (ns ! i) edge_prob 16 g of
        Inl e \<Rightarrow> Inl e
      | Inr (d, g1) \<Rightarrow>
          (case generate_all ns edge_prob is g1 of
             Inl e \<Rightarrow> Inl e
           | Inr (ds, g2) \<Rightarrow> Inr (d # ds, g2)))"

definition ERDataset_init :: "int \<Rightarrow> int \<Rightarrow> int \<Rightarrow> real \<Rightarrow> rng \<Rightarrow> error + (ERDataset \<times> rng)" where
  "ERDataset_init num_graphs min_num_nodes max_num_nodes edge_prob g =
     (case randint min_num_nodes max_num_nodes num_graphs g of
        Inl e \<Rightarrow> Inl e
      | Inr (ns, g1) \<Rightarrow>
          (case generate_all ns edge_prob [0..<nat num_graphs] g1 of
             Inl e \<Rightarrow> Inl e
           | Inr (ds, g2) \<Rightarrow> Inr (\<lparr>gs = ds\<rparr>, g2)))"

text \<open>Python list indexing: a negative index counts from the end, out of range raises.\<close>

definition ERDataset_getitem :: "ERDataset \<Rightarrow> int \<Rightarrow> error + Data" where
  "ERDataset_getitem self index =
     (let n = int (length (gs self)); j = (if index < 0 then n + index else index)
      in if 0 \<le> j \<and> j < n then Inr (gs self ! nat j) else Inl (PythonRuntime, IndexError))"

definition ERDataset_len :: "ERDataset \<Rightarrow> int" where
  "ERDataset_len self = int (length (gs self))"


section \<open>Notebook 2.gnn: the naive scatter loop and the library's scatter\<close>

text \<open>
  In the cell, \<open>src\<close> has shape \<open>(N, dim1, dim2)\<close> and every operation acts on whole
  rows \<open>src[j]\<close> elementwise. A row is modelled flattened, as a list of
  \<open>d = dim1 * dim2\<close> reals; \<open>d\<close> is passed along, because a list without rows does not
  carry the trailing shape that an empty tensor still has.
\<close>

definition vadd :: "real list \<Rightarrow> real list \<Rightarrow> real list" where
  "vadd a b = map2 (+) a b"

text \<open>\<open>t.sum(dim=0)\<close> for \<open>t\<close> of shape \<open>(m, d)\<close>: the elementwise sum of the rows.\<close>

definition sum_dim0 :: "nat \<Rightarrow> tensor \<Rightarrow> real list" where
  "sum_dim0 d t = foldl vadd (replicate d 0) t"

text \<open>\<open>index.unique()\<close>: the distinct values in ascending order.\<close>

definition unique :: "int list \<Rightarrow> int list" where
  "unique index = sort (remdups index)"

text \<open>
  \<open>src[index == i]\<close>: the rows whose index entry equals \<open>i\<close>, in order. Boolean-mask
  indexing raises when the mask does not have one entry per row.
\<close>

definition mask_select :: "tensor \<Rightarrow> int list \<Rightarrow> int \<Rightarrow> error + tensor" where
  "mask_select src index i =
     (if length index \<noteq> length src then Inl (Library, IndexError)
      else Inr (map fst (filter (\<lambda>(r, k). k = i) (zip src index))))"

text \<open>
  \<open>out[i] = v\<close> for an integer \<open>i\<close>: a negative index counts from the end, an index
  out of range raises. The value assigned in the cell always has the shape of a row.
\<close>

definition set_row :: "tensor \<Rightarrow> int \<Rightarrow> real list \<Rightarrow> error + tensor" where
  "set_row out i v =
     (let n = int (length out); j = (if i < 0 then n + i else i)
      in if 0 \<le> j \<and> j < n then Inr (out[nat j := v]) else Inl (Library, IndexError))"

text \<open>
  \<^verbatim>\<open>
  out_naive = torch.zeros(index.unique().shape[0], dim1, dim2)
  for i in index.unique().tolist():
      out_naive[i] = src[index == i].sum(dim=0)
  \<close>
\<close>

fun naive_loop :: "nat \<Rightarrow> tensor \<Rightarrow> int list \<Rightarrow> int list \<Rightarrow> tensor \<Rightarrow> error + tensor" where
  "naive_loop d src index [] out = Inr out"
| "naive_loop d src index (i # is) out =
     (case mask_select src index i of
        Inl e \<Rightarrow> Inl e
      | Inr sel \<Rightarrow>
          (case set_row out i (sum_dim0 d sel) of
             Inl e \<Rightarrow> Inl e
           | Inr out' \<Rightarrow> naive_loop d src index is out'))"

definition out_naive :: "nat \<Rightarrow> tensor \<Rightarrow> int list \<Rightarrow> error + tensor" where
  "out_naive d src index =
     naive_loop d src index (unique index) (zeros (length (unique index)) d)"

text \<open>
  External library operation \<open>out.scatter_add_(0, idx, src)\<close>: for every position \<open>j\<close>
  in turn, row \<open>src[j]\<close> is added to row \<open>idx[j]\<close> of \<open>out\<close>.
\<close>

definition scatter_add :: "tensor \<Rightarrow> int list \<Rightarrow> tensor \<Rightarrow> tensor" where
  "scatter_add out idx src =
     foldl (\<lambda>acc (k, r). acc[nat k := vadd (acc ! nat k) r]) out (zip idx src)"

text \<open>
  External library operation \<open>scatter(src, index, dim=0, reduce="sum")\<close> of
  torch_geometric.utils, from its documentation: the output has
  \<open>index.max() + 1\<close> rows (none for an empty index), all zero, to which \<open>scatter_add_\<close>
  adds the rows of \<open>src\<close>. The index is first expanded to the shape of \<open>src\<close>: an index
  with a single entry is repeated for every row, any other length that is not the
  number of rows raises. A negative index entry raises. The rows of the output have
  the trailing size \<open>d\<close> of \<open>src\<close>.
\<close>

definition scatter :: "nat \<Rightarrow> tensor \<Rightarrow> int list \<Rightarrow> error + tensor" where
  "scatter d src index =
     (let dim_size = (if index = [] then 0 else Max (set index) + 1)
      in if length index \<noteq> length src \<and> length index \<noteq> 1 then Inl (Library, RuntimeError)
         else
           let idx = (if length index = length src then index
                      else replicate (length src) (hd index))
           in if list_ex (\<lambda>k. k < 0) index then Inl (Library, RuntimeError)
              else Inr (scatter_add (zeros (nat dim_size) d) idx src))"




section \<open>Notebook 1.mp_layer: the message-passing layers\<close>

text \<open>
  A \<open>torch.nn\<close> module is a tree. \<open>nn.Linear\<close> holds its number of input features,
  its weight (one row per output feature) and its bias; an activation module holds the
  name of its class and the function it applies to every entry; \<open>nn.Sequential\<close>
  holds its children in order.
\<close>

datatype module =
    Linear nat "real list list" "real list"
  | Activation string "real \<Rightarrow> real"
  | Sequential "module list"

definition relu :: "real \<Rightarrow> real" where
  "relu v = max 0 v"

text \<open>
  \<open>nn.Linear(in_features, out_features)\<close> draws the initial weight and then the initial
  bias from the generator. The sizes are natural numbers here: a negative size makes
  the library raise.
\<close>

definition Linear_init :: "nat \<Rightarrow> nat \<Rightarrow> rng \<Rightarrow> module \<times> rng" where
  "Linear_init in_features out_features g =
     (Linear in_features
             (map (\<lambda>i. map (\<lambda>j. reals g (i * in_features + j)) [0..<in_features])
                [0..<out_features])
             (map (\<lambda>i. reals g (out_features * in_features + i)) [0..<out_features]),
      skip_reals (out_features * in_features + out_features) g)"

text \<open>\<open>W r + b\<close> for one row \<open>r\<close>.\<close>

definition affine :: "real list list \<Rightarrow> real list \<Rightarrow> real list \<Rightarrow> real list" where
  "affine W b r = map (\<lambda>(w, c). sum_list (map2 (*) w r) + c) (zip W b)"

text \<open>
  Calling a module on a tensor of shape \<open>(n, d)\<close>. \<open>nn.Linear\<close> raises when \<open>d\<close> is not
  its number of input features.
\<close>

fun module_forward :: "module \<Rightarrow> tensor \<Rightarrow> error + tensor"
  and sequential_forward :: "module list \<Rightarrow> tensor \<Rightarrow> error + tensor" where
  "module_forward (Linear n_in W b) t =
     (if list_all (\<lambda>r. length r = n_in) t
      then Inr (map (affine W b) t) else Inl (Library, RuntimeError))"
| "module_forward (Activation name fn) t = Inr (map (map fn) t)"
| "module_forward (Sequential ms) t = sequential_forward ms t"
| "sequential_forward [] t = Inr t"
| "sequential_forward (m # ms) t =
     (case module_forward m t of Inl e \<Rightarrow> Inl e | Inr t' \<Rightarrow> sequential_forward ms t')"

text \<open>
  The aggregation passed to \<open>MessagePassing.__init__\<close>: the notebooks pass \<open>'add'\<close>,
  \<open>'max'\<close> and an \<open>aggr.AttentionalAggregation\<close> module, which owns its gate network.
\<close>

datatype aggr = Aggr_add | Aggr_max | AttentionalAggregation module

record MessagePassing =
  aggr :: aggr

text \<open>
  The layer classes extend the base class with the sub-modules their constructors
  create. The fields carry the attribute names of the source behind a prefix for the
  class (\<open>self.linear\<close>, \<open>self.act\<close>, \<open>self.h\<close>, \<open>self.f\<close>, \<open>self.g\<close>).
\<close>

record NaiveGCNConv = MessagePassing +
  gcn_linear :: module
  gcn_act :: module

record EdgeConv = MessagePassing +
  ec_h :: module

record InteractionNetworkLayer = MessagePassing +
  in_f :: module
  in_g :: module

record AttentiveINLayer = MessagePassing +
  ain_f :: module
  ain_g :: module

text \<open>
  \<^verbatim>\<open>
  class NaiveGCNConv(MessagePassing):
      def __init__(self, dim, act='ReLU'):
          super().__init__(aggr='add')
          self.linear = nn.Linear(dim, dim)
          self.act = getattr(nn, act)()
  \<close>
  \<open>getattr(nn, act)\<close> looks the name up in \<open>torch.nn\<close>; the namespace is a parameter
  that maps the name of an activation class to its elementwise function. The argument
  \<open>dim\<close> of the constructors is written \<open>dm\<close>.
\<close>

definition NaiveGCNConv_init ::
  "(string \<Rightarrow> (real \<Rightarrow> real) option) \<Rightarrow> nat \<Rightarrow> string \<Rightarrow> rng \<Rightarrow> error + (NaiveGCNConv \<times> rng)" where
  "NaiveGCNConv_init nn dm act_name g =
     (let (l, g1) = Linear_init dm dm g
      in case nn act_name of
           None \<Rightarrow> Inl (PythonRuntime, AttributeError)
         | Some fn \<Rightarrow>
             Inr (\<lparr>aggr = Aggr_add, gcn_linear = l, gcn_act = Activation act_name fn\<rparr>, g1))"

text \<open>
  \<^verbatim>\<open>
  class EdgeConv(MessagePassing):
      def __init__(self, dim):
          super().__init__(aggr='max')
          self.h = nn.Sequential(nn.Linear(dim*2, dim), nn.ReLU(), nn.Linear(dim, dim))
  \<close>
\<close>

definition EdgeConv_init :: "nat \<Rightarrow> rng \<Rightarrow> EdgeConv \<times> rng" where
  "EdgeConv_init dm g =
     (let (h1, g1) = Linear_init (dm * 2) dm g;
          (h2, g2) = Linear_init dm dm g1
      in (\<lparr>aggr = Aggr_max, ec_h = Sequential [h1, Activation ''ReLU'' relu, h2]\<rparr>, g2))"

text \<open>
  \<^verbatim>\<open>
  class InteractionNetworkLayer(MessagePassing):
      def __init__(self, dim):
          super().__init__(aggr='add')
          self.f = nn.Sequential(nn.Linear(dim*3, dim), nn.ReLU(), nn.Linear(dim, dim))
          self.g = nn.Sequential(nn.Linear(dim*2, dim), nn.ReLU(), nn.Linear(dim, dim))
  \<close>
\<close>

definition InteractionNetworkLayer_init :: "nat \<Rightarrow> rng \<Rightarrow> InteractionNetworkLayer \<times> rng" where
  "InteractionNetworkLayer_init dm g =
     (let (f1, g1) = Linear_init (dm * 3) dm g;
          (f2, g2) = Linear_init dm dm g1;
          (k1, g3) = Linear_init (dm * 2) dm g2;
          (k2, g4) = Linear_init dm dm g3
      in (\<lparr>aggr = Aggr_add,
           in_f = Sequential [f1, Activation ''ReLU'' relu, f2],
           in_g = Sequential [k1, Activation ''ReLU'' relu, k2]\<rparr>, g4))"

text \<open>
  \<^verbatim>\<open>
  class AttentiveINLayer(MessagePassing):
      def __init__(self, dim):
          gate_nn = nn.Sequential(nn.Linear(dim, dim), nn.Tanh(), nn.Linear(dim, 1))
          super().__init__(aggr=aggr.AttentionalAggregation(gate_nn=gate_nn))
          self.f = nn.Sequential(nn.Linear(dim*3, dim), nn.ReLU(), nn.Linear(dim, dim))
          self.g = nn.Sequential(nn.Linear(dim*2, dim), nn.ReLU(), nn.Linear(dim, dim))
  \<close>
\<close>

definition AttentiveINLayer_init :: "nat \<Rightarrow> rng \<Rightarrow> AttentiveINLayer \<times> rng" where
  "AttentiveINLayer_init dm g =
     (let (t1, g1) = Linear_init dm dm g;
          (t2, g2) = Linear_init dm 1 g1;
          gate_nn = Sequential [t1, Activation ''Tanh'' tanh, t2];
          (f1, g3) = Linear_init (dm * 3) dm g2;
          (f2, g4) = Linear_init dm dm g3;
          (k1, g5) = Linear_init (dm * 2) dm g4;
          (k2, g6) = Linear_init dm dm g5
      in (\<lparr>aggr = AttentionalAggregation gate_nn,
           ain_f = Sequential [f1, Activation ''ReLU'' relu, f2],
           ain_g = Sequential [k1, Activation ''ReLU'' relu, k2]\<rparr>, g6))"

text \<open>
  The feed-forward sub-networks among the modules a constructor creates: a linear
  layer, or a sequential stack that contains one. An activation alone is none.
\<close>

fun is_linear :: "module \<Rightarrow> bool" where
  "is_linear (Linear n_in W b) = True"
| "is_linear (Activation name fn) = False"
| "is_linear (Sequential ms) = False"

fun is_feed_forward :: "module \<Rightarrow> bool" where
  "is_feed_forward (Linear n_in W b) = True"
| "is_feed_forward (Activation name fn) = False"
| "is_feed_forward (Sequential ms) = list_ex is_linear ms"

fun aggr_modules :: "aggr \<Rightarrow> module list" where
  "aggr_modules Aggr_add = []"
| "aggr_modules Aggr_max = []"
| "aggr_modules (AttentionalAggregation gate_nn) = [gate_nn]"

definition NaiveGCNConv_networks :: "NaiveGCNConv \<Rightarrow> module list" where
  "NaiveGCNConv_networks l =
     filter is_feed_forward (aggr_modules (aggr l) @ [gcn_linear l, gcn_act l])"

definition EdgeConv_networks :: "EdgeConv \<Rightarrow> module list" where
  "EdgeConv_networks l = filter is_feed_forward (aggr_modules (aggr l) @ [ec_h l])"

definition InteractionNetworkLayer_networks :: "InteractionNetworkLayer \<Rightarrow> module list" where
  "InteractionNetworkLayer_networks l =
     filter is_feed_forward (aggr_modules (aggr l) @ [in_f l, in_g l])"

definition AttentiveINLayer_networks :: "AttentiveINLayer \<Rightarrow> module list" where
  "AttentiveINLayer_networks l =
     filter is_feed_forward (aggr_modules (aggr l) @ [ain_f l, ain_g l])"


text \<open>
  External library operation \<open>MessagePassing.propagate(edge_index, x=x)\<close>, from the
  library's documentation, for a layer constructed with \<open>aggr='add'\<close> that keeps the
  default \<open>message\<close> (the feature row \<open>x_j\<close> of the source node of each edge) and the
  default \<open>update\<close> (the identity). The messages are gathered first, with
  \<open>index_select\<close>, which raises \<open>IndexError\<close> on a source id outside \<open>[0, N)\<close>. They
  are then added with \<open>scatter_add_\<close> to the row of their target node in a zero tensor
  with one row per node; there the aggregation raises \<open>ValueError\<close> when a target id
  is \<open>N\<close> or more, and otherwise \<open>scatter_add_\<close> raises \<open>RuntimeError\<close> on a negative
  target id. The reduction is fixed when the layer is constructed;
  \<open>NaiveGCNConv.__init__\<close> passes \<open>aggr='add'\<close>.
\<close>

definition propagate :: "tensor \<Rightarrow> edge_index \<Rightarrow> error + tensor" where
  "propagate t ei =
     (let n = int (length t)
      in if list_ex (\<lambda>(j, i). j < 0 \<or> n \<le> j) ei then Inl (Library, IndexError)
         else if list_ex (\<lambda>(j, i). n \<le> i) ei then Inl (Library, ValueError)
         else if list_ex (\<lambda>(j, i). i < 0) ei then Inl (Library, RuntimeError)
         else Inr (scatter_add (zeros (length t) (width t))
                     (map snd ei) (map (\<lambda>(j, i). t ! nat j) ei)))"

text \<open>
  \<^verbatim>\<open>
      def forward(self, x, edge_index):
          x = self.linear(x) # Perform Wx+b
          x = self.propagate(x=x, edge_index=edge_index)
          x = self.act(x) # Apply activation function
          return x
  \<close>
\<close>

definition NaiveGCNConv_forward :: "NaiveGCNConv \<Rightarrow> tensor \<Rightarrow> edge_index \<Rightarrow> error + tensor" where
  "NaiveGCNConv_forward self t ei =
     (case module_forward (gcn_linear self) t of
        Inl e \<Rightarrow> Inl e
      | Inr t1 \<Rightarrow>
          (case propagate t1 ei of
             Inl e \<Rightarrow> Inl e
           | Inr t2 \<Rightarrow> module_forward (gcn_act self) t2))"

section \<open>Notebook DGL Tutorial 0: an attributed graph\<close>

text \<open>
  A DGL graph has a fixed number of nodes, a list of edges and two dictionaries of
  feature tensors, \<open>ndata\<close> and \<open>edata\<close>. The operations are the external library's,
  from its documentation: \<open>dgl.graph((u, v), num_nodes)\<close> infers the number of nodes
  from the largest node id when none is given and raises when the given number does
  not cover the ids; assigning a node (edge) feature raises unless the tensor has one
  row per node (edge).
\<close>

record DGLGraph =
  n_nodes :: nat
  edges :: edge_index
  ndata :: "string \<rightharpoonup> tensor"
  edata :: "string \<rightharpoonup> tensor"

definition dgl_graph :: "int list \<times> int list \<Rightarrow> int option \<Rightarrow> error + DGLGraph" where
  "dgl_graph uv num =
     (let (u, v) = uv;
          inferred = (if u @ v = [] then 0 else Max (set (u @ v)) + 1)
      in if length u \<noteq> length v \<or> list_ex (\<lambda>k. k < 0) (u @ v) then Inl (Library, DGLError)
         else case num of
                None \<Rightarrow> Inr \<lparr>n_nodes = nat inferred, edges = zip u v,
                             ndata = Map.empty, edata = Map.empty\<rparr>
              | Some n \<Rightarrow>
                  if n < inferred then Inl (Library, DGLError)
                  else Inr \<lparr>n_nodes = nat n, edges = zip u v,
                            ndata = Map.empty, edata = Map.empty\<rparr>)"

definition number_of_nodes :: "DGLGraph \<Rightarrow> int" where
  "number_of_nodes gr = int (n_nodes gr)"

definition number_of_edges :: "DGLGraph \<Rightarrow> int" where
  "number_of_edges gr = int (length (edges gr))"

definition set_ndata :: "DGLGraph \<Rightarrow> string \<Rightarrow> tensor \<Rightarrow> error + DGLGraph" where
  "set_ndata gr key t =
     (if length t = n_nodes gr then Inr (gr\<lparr>ndata := (ndata gr)(key \<mapsto> t)\<rparr>)
      else Inl (Library, DGLError))"

definition set_edata :: "DGLGraph \<Rightarrow> string \<Rightarrow> tensor \<Rightarrow> error + DGLGraph" where
  "set_edata gr key t =
     (if length t = length (edges gr) then Inr (gr\<lparr>edata := (edata gr)(key \<mapsto> t)\<rparr>)
      else Inl (Library, DGLError))"

text \<open>
  The code cells that build the attributed graph, in order:
  \<^verbatim>\<open>
  u, v = torch.tensor([0, 0, 0, 1]), torch.tensor([1, 2, 3, 3])
  g = dgl.graph((u, v))
  g = dgl.graph((u, v), num_nodes=8)
  node_feat_dim = 7
  edge_feat_dim = 3
  g.ndata['feat'] = torch.randn(g.number_of_nodes(), node_feat_dim)
  g.edata['feat'] = torch.randn(g.number_of_edges(), edge_feat_dim)
  \<close>
\<close>

definition dgl_tutorial :: "rng \<Rightarrow> error + (DGLGraph \<times> rng)" where
  "dgl_tutorial g0 =
     (let u = [0, 0, 0, 1]; v = [1, 2, 3, 3]
      in case dgl_graph (u, v) None of
           Inl e \<Rightarrow> Inl e
         | Inr first \<Rightarrow>
             (case dgl_graph (u, v) (Some 8) of
                Inl e \<Rightarrow> Inl e
              | Inr gr \<Rightarrow>
                  let node_feat_dim = 7; edge_feat_dim = 3
                  in (case randn (number_of_nodes gr) node_feat_dim g0 of
                        Inl e \<Rightarrow> Inl e
                      | Inr (nf, g1) \<Rightarrow>
                          (case set_ndata gr ''feat'' nf of
                             Inl e \<Rightarrow> Inl e
                           | Inr gr1 \<Rightarrow>
                               (case randn (number_of_edges gr1) edge_feat_dim g1 of
                                  Inl e \<Rightarrow> Inl e
                                | Inr (ef, g2) \<Rightarrow>
                                    (case set_edata gr1 ''feat'' ef of
                                       Inl e \<Rightarrow> Inl e
                                     | Inr gr2 \<Rightarrow> Inr (gr2, g2)))))))"

section \<open>Notebook Tutorial 4: loading a benchmark dataset\<close>



section \<open>Batched graphs\<close>

text \<open>
  Modelled from the spec: \<open>Batch.from_data_list\<close> and the collation of the PyG
  \<open>DataLoader\<close> belong to the external library and are not in the repository; the
  notebooks only call them. The spec describes the result as "a batched-graph object
  that concatenates multiple graphs and records per-node graph membership". The model
  walks through the list once: it appends the node features, appends the edges with
  their node ids shifted by the number of nodes seen so far, extends the membership
  vector \<open>batch\<close> with the position of the graph, once per node, and records the
  running node count in \<open>ptr\<close>. An optional attribute of the first graph is kept and
  concatenated, unless its key is excluded; a later graph without it raises. An empty
  list raises.
\<close>

record DataBatch = Data +
  batch :: "int list"
  ptr :: "int list"

fun append_attr :: "'a list option \<Rightarrow> 'a list option \<Rightarrow> error + 'a list option" where
  "append_attr None v = Inr None"
| "append_attr (Some a) (Some v) = Inr (Some (a @ v))"
| "append_attr (Some a) None = Inl (Library, AttributeError)"

definition keep_attr :: "string list \<Rightarrow> string \<Rightarrow> 'a option \<Rightarrow> 'a option" where
  "keep_attr exclude_keys key v = (if key \<in> set exclude_keys then None else v)"

fun collate :: "Data list \<Rightarrow> nat \<Rightarrow> nat \<Rightarrow> DataBatch \<Rightarrow> error + DataBatch" where
  "collate [] i off b = Inr b"
| "collate (d # ds) i off b =
     (case append_attr (edge_attr b) (edge_attr d) of
        Inl e \<Rightarrow> Inl e
      | Inr ea \<Rightarrow>
          (case append_attr (y b) (y d) of
             Inl e \<Rightarrow> Inl e
           | Inr ys \<Rightarrow>
               (case append_attr (dummy b) (dummy d) of
                  Inl e \<Rightarrow> Inl e
                | Inr du \<Rightarrow>
                    collate ds (i + 1) (off + num_nodes d)
                      (b\<lparr>x := x b @ x d,
                         edge_index := edge_index b @
                           map (\<lambda>(s, t). (s + int off, t + int off)) (edge_index d),
                         edge_attr := ea, y := ys, dummy := du,
                         batch := batch b @ replicate (num_nodes d) (int i),
                         ptr := ptr b @ [int (off + num_nodes d)]\<rparr>))))"

definition from_data_list :: "string list \<Rightarrow> Data list \<Rightarrow> error + DataBatch" where
  "from_data_list exclude_keys data_list =
     (case data_list of
        [] \<Rightarrow> Inl (Library, IndexError)
      | d # ds \<Rightarrow>
          collate ds 1 (num_nodes d)
            \<lparr>x = x d, edge_index = edge_index d,
             edge_attr = keep_attr exclude_keys ''edge_attr'' (edge_attr d),
             y = keep_attr exclude_keys ''y'' (y d),
             dummy = keep_attr exclude_keys ''dummy'' (dummy d),
             batch = replicate (num_nodes d) 0,
             ptr = [0, int (num_nodes d)]\<rparr>)"

section \<open>Properties of the dataset class\<close>

lemma randint_length:
  "randint low high sz g = Inr (ns, g') \<Longrightarrow> int (length ns) = sz"
  by (auto simp: randint_def split: if_splits)

lemma randint_range:
  assumes "randint low high sz g = Inr (ns, g')" and "k \<in> set ns"
  shows "low \<le> k \<and> k < high"
proof -
  from assms(1) have lt: "0 < high - low"
    and ns: "ns = map (\<lambda>k. low + int (ints g k) mod (high - low)) [0..<nat sz]"
    by (auto simp: randint_def split: if_splits)
  from assms(2) ns obtain i where k: "k = low + int (ints g i) mod (high - low)"
    by auto
  from lt have "0 \<le> int (ints g i) mod (high - low)"
    and "int (ints g i) mod (high - low) < high - low"
    by simp_all
  with k show ?thesis by simp
qed

lemma randn_rows:
  "randn n d g = Inr (t, g') \<Longrightarrow> int (length t) = n"
  by (auto simp: randn_def split: if_splits)


lemma generate_er_graph_num_nodes:
  "generate_er_graph n p d g = Inr (gr, g') \<Longrightarrow> int (num_nodes gr) = n"
  by (auto simp: generate_er_graph_def num_nodes_def Let_def dest: randn_rows
      split: sum.splits prod.splits)

lemma generate_all_length:
  "generate_all ns p is g = Inr (ds, g') \<Longrightarrow> length ds = length is"
  by (induction "is" arbitrary: g ds) (auto split: sum.splits prod.splits)

lemma generate_all_nth:
  "generate_all ns p is g = Inr (ds, g') \<Longrightarrow> k < length is \<Longrightarrow>
     int (num_nodes (ds ! k)) = ns ! (is ! k)"
proof (induction "is" arbitrary: g ds k)
  case Nil
  then show ?case by simp
next
  case (Cons i "is")
  from Cons.prems(1) obtain d g1 ds' where
    d: "generate_er_graph (ns ! i) p 16 g = Inr (d, g1)" and
    r: "generate_all ns p is g1 = Inr (ds', g')" and
    ds: "ds = d # ds'"
    by (auto split: sum.splits prod.splits)
  show ?case
  proof (cases k)
    case 0
    with d ds show ?thesis by (simp add: generate_er_graph_num_nodes)
  next
    case (Suc k')
    with Cons.prems(2) have "k' < length is" by simp
    from Cons.IH[OF r this] Suc ds show ?thesis by simp
  qed
qed

lemma generate_er_graph_succeeds:
  "0 \<le> n \<Longrightarrow> 0 \<le> d \<Longrightarrow> \<exists>gr g'. generate_er_graph n p d g = Inr (gr, g')"
  by (auto simp: generate_er_graph_def erdos_renyi_graph_def randn_def Let_def
      split: prod.splits)

lemma generate_all_succeeds:
  "\<forall>i\<in>set is. 0 \<le> ns ! i \<Longrightarrow> \<exists>ds g'. generate_all ns p is g = Inr (ds, g')"
proof (induction "is" arbitrary: g)
  case Nil
  then show ?case by simp
next
  case (Cons i "is")
  from Cons.prems have "0 \<le> ns ! i" by simp
  from generate_er_graph_succeeds[OF this, of 16 p g] obtain gr g1 where
    "generate_er_graph (ns ! i) p 16 g = Inr (gr, g1)" by auto
  moreover from Cons.IH[of g1] Cons.prems obtain ds g2 where
    "generate_all ns p is g1 = Inr (ds, g2)" by auto
  ultimately show ?case by simp
qed

lemma ERDataset_init_succeeds:
  assumes "0 \<le> num_graphs" and "0 \<le> lo" and "lo < hi"
  shows "\<exists>self g'. ERDataset_init num_graphs lo hi p g = Inr (self, g')"
proof -
  from assms obtain ns g1 where r: "randint lo hi num_graphs g = Inr (ns, g1)"
    by (auto simp: randint_def)
  from randint_length[OF r] have len: "length ns = nat num_graphs" by simp
  have "\<forall>i\<in>set [0..<nat num_graphs]. 0 \<le> ns ! i"
  proof
    fix i assume "i \<in> set [0..<nat num_graphs]"
    with len have "ns ! i \<in> set ns" by simp
    from randint_range[OF r this] assms(2) show "0 \<le> ns ! i" by simp
  qed
  from generate_all_succeeds[OF this, of p g1] obtain ds g2 where
    "generate_all ns p [0..<nat num_graphs] g1 = Inr (ds, g2)" by auto
  with r show ?thesis by (simp add: ERDataset_init_def)
qed


text \<open>
  C3. The dataset class is a list wrapper: for an index \<open>0 \<le> i < len(dataset)\<close>,
  \<open>__getitem__(i)\<close> returns the \<open>i\<close>-th element of the stored list \<open>gs\<close>, \<open>__len__\<close>
  returns the number of stored graphs, and for a dataset that the constructor returned
  this number is the \<open>num_graphs\<close> argument.
\<close>

theorem ERDataset_is_list_wrapper:
  "(0 \<le> i \<and> i < ERDataset_len self \<longrightarrow> ERDataset_getitem self i = Inr (gs self ! nat i))
   \<and> ERDataset_len self = int (length (gs self))
   \<and> (ERDataset_init num_graphs lo hi p g = Inr (self, g') \<longrightarrow> ERDataset_len self = num_graphs)"
proof (intro conjI impI)
  assume "0 \<le> i \<and> i < ERDataset_len self"
  then show "ERDataset_getitem self i = Inr (gs self ! nat i)"
    by (simp add: ERDataset_getitem_def ERDataset_len_def Let_def)
next
  show "ERDataset_len self = int (length (gs self))"
    by (simp add: ERDataset_len_def)
next
  assume a: "ERDataset_init num_graphs lo hi p g = Inr (self, g')"
  then obtain ns g1 ds where
    n: "randint lo hi num_graphs g = Inr (ns, g1)" and
    d: "generate_all ns p [0..<nat num_graphs] g1 = Inr (ds, g')" and
    s: "self = \<lparr>gs = ds\<rparr>"
    by (auto simp: ERDataset_init_def split: sum.splits prod.splits)
  from n have "0 \<le> num_graphs" by (auto simp: randint_def split: if_splits)
  with generate_all_length[OF d] s show "ERDataset_len self = num_graphs"
    by (simp add: ERDataset_len_def)
qed

theorem ERDataset_is_list_wrapper_witness:
  "\<exists>self g'. ERDataset_init 3 2 5 (3 / 10) \<lparr>ints = (\<lambda>k. 7 * k + 3), reals = real\<rparr> = Inr (self, g')
     \<and> ERDataset_len self = 3 \<and> ERDataset_getitem self 1 = Inr (gs self ! nat 1)"
proof -
  let ?g = "\<lparr>ints = (\<lambda>k. 7 * k + 3), reals = real\<rparr>"
  from ERDataset_init_succeeds[of 3 2 5 "3 / 10" ?g] obtain self g' where
    i: "ERDataset_init 3 2 5 (3 / 10) ?g = Inr (self, g')" by auto
  from ERDataset_is_list_wrapper[of 1 self 3 2 5 "3 / 10" ?g g'] i
  have "ERDataset_len self = 3" and "ERDataset_getitem self 1 = Inr (gs self ! nat 1)"
    by auto
  with i show ?thesis by blast
qed


text \<open>
  C10. Every graph of a constructed dataset has a node count \<open>n\<close> with
  \<open>min_num_nodes \<le> n < max_num_nodes\<close>: the upper bound is exclusive.
\<close>

theorem ERDataset_node_counts:
  assumes "ERDataset_init num_graphs min_num_nodes max_num_nodes edge_prob g = Inr (self, g')"
    and "gr \<in> set (gs self)"
  shows "min_num_nodes \<le> int (num_nodes gr) \<and> int (num_nodes gr) < max_num_nodes"
proof -
  from assms(1) obtain ns g1 where
    n: "randint min_num_nodes max_num_nodes num_graphs g = Inr (ns, g1)" and
    d: "generate_all ns edge_prob [0..<nat num_graphs] g1 = Inr (gs self, g')"
    by (auto simp: ERDataset_init_def split: sum.splits prod.splits)
  from assms(2) obtain k where k: "k < length (gs self)" and gr: "gr = gs self ! k"
    by (auto simp: in_set_conv_nth)
  from generate_all_length[OF d] k have kn: "k < nat num_graphs" by simp
  with generate_all_nth[OF d, of k] have "int (num_nodes gr) = ns ! k"
    by (simp add: gr)
  moreover from randint_length[OF n] kn have "ns ! k \<in> set ns" by auto
  ultimately show ?thesis using randint_range[OF n] by simp
qed

theorem ERDataset_node_counts_witness:
  "\<exists>self g'. ERDataset_init 3 2 5 (3 / 10) \<lparr>ints = (\<lambda>k. 7 * k + 3), reals = real\<rparr> = Inr (self, g')
     \<and> gs self \<noteq> [] \<and> 2 \<le> int (num_nodes (hd (gs self))) \<and> int (num_nodes (hd (gs self))) < 5"
proof -
  let ?g = "\<lparr>ints = (\<lambda>k. 7 * k + 3), reals = real\<rparr>"
  from ERDataset_init_succeeds[of 3 2 5 "3 / 10" ?g] obtain self g' where
    i: "ERDataset_init 3 2 5 (3 / 10) ?g = Inr (self, g')" by auto
  then obtain ns g1 where
    d: "generate_all ns (3 / 10) [0..<nat 3] g1 = Inr (gs self, g')"
    by (auto simp: ERDataset_init_def split: sum.splits prod.splits)
  from generate_all_length[OF d] have ne: "gs self \<noteq> []" by auto
  then have "hd (gs self) \<in> set (gs self)" by simp
  from ERDataset_node_counts[OF i this] ne i show ?thesis by blast
qed

section \<open>The naive scatter loop against the library's scatter\<close>

lemma scatter_add_length [simp]: "length (scatter_add out idx src) = length out"
proof -
  have "length (foldl (\<lambda>acc (k, r). acc[nat k := vadd (acc ! nat k) r]) out ps) = length out" for ps
    by (induction ps arbitrary: out) (auto split: prod.splits)
  then show ?thesis by (simp add: scatter_add_def)
qed

lemma scatter_add_nth:
  assumes "i < length out"
  shows "scatter_add out idx src ! i =
         foldl vadd (out ! i) (map snd (filter (\<lambda>(k, r). nat k = i) (zip idx src)))"
proof -
  have "foldl (\<lambda>acc (k, r). acc[nat k := vadd (acc ! nat k) r]) out ps ! i =
        foldl vadd (out ! i) (map snd (filter (\<lambda>(k, r). nat k = i) ps))"
    if "i < length out" for ps out
    using that
  proof (induction ps arbitrary: out)
    case Nil
    then show ?case by simp
  next
    case (Cons p ps)
    obtain k r where p: "p = (k, r)" by (cases p)
    have len: "i < length (out[nat k := vadd (out ! nat k) r])" using Cons.prems by simp
    show ?case
      using Cons.IH[OF len] Cons.prems by (simp add: p nth_list_update)
  qed
  from this[OF assms] show ?thesis by (simp add: scatter_add_def)
qed


lemma mask_select_eq:
  "length index = length src \<Longrightarrow>
   mask_select src index i = Inr (map snd (filter (\<lambda>(k, r). k = i) (zip index src)))"
proof -
  have "map fst (filter (\<lambda>(r, k). k = i) (zip src index)) =
        map snd (filter (\<lambda>(k, r). k = i) (zip index src))"
    if "length index = length src"
    using that by (induction index src rule: list_induct2) auto
  then show "length index = length src \<Longrightarrow> ?thesis"
    by (simp add: mask_select_def)
qed

lemma naive_loop_result:
  assumes "length index = length src"
    and "\<forall>i\<in>set is. 0 \<le> i \<and> nat i < length out"
    and "distinct is"
  shows "\<exists>out'. naive_loop d src index is out = Inr out' \<and> length out' = length out \<and>
           (\<forall>j<length out. out' ! j =
              (if int j \<in> set is
               then sum_dim0 d (map snd (filter (\<lambda>(k, r). k = int j) (zip index src)))
               else out ! j))"
  using assms(2,3)
proof (induction "is" arbitrary: out)
  case Nil
  then show ?case by simp
next
  case (Cons i "is")
  let ?v = "sum_dim0 d (map snd (filter (\<lambda>(k, r). k = i) (zip index src)))"
  from Cons.prems(1) have i: "0 \<le> i" "nat i < length out" by auto
  then have sr: "set_row out i ?v = Inr (out[nat i := ?v])"
    by (auto simp: set_row_def Let_def)
  have pre: "\<forall>k\<in>set is. 0 \<le> k \<and> nat k < length (out[nat i := ?v])"
    using Cons.prems(1) by simp
  from Cons.prems(2) have dis: "distinct is" and notin: "i \<notin> set is" by auto
  from Cons.IH[OF pre dis] obtain out' where
    run: "naive_loop d src index is (out[nat i := ?v]) = Inr out'" and
    len: "length out' = length out" and
    nth: "\<forall>j<length out. out' ! j =
            (if int j \<in> set is
             then sum_dim0 d (map snd (filter (\<lambda>(k, r). k = int j) (zip index src)))
             else out[nat i := ?v] ! j)"
    by auto
  have "naive_loop d src index (i # is) out = Inr out'"
    using run sr by (simp add: mask_select_eq[OF assms(1)])
  moreover have "out' ! j =
            (if int j \<in> set (i # is)
             then sum_dim0 d (map snd (filter (\<lambda>(k, r). k = int j) (zip index src)))
             else out ! j)" if "j < length out" for j
  proof (cases "int j = i")
    case True
    then have "nat i = j" by simp
    with nth that notin True show ?thesis by auto
  next
    case False
    then have "nat i \<noteq> j" using i by auto
    with nth that False show ?thesis by auto
  qed
  ultimately show ?case using len by blast
qed

lemma unique_upto:
  assumes "set index = {0..k - 1}"
  shows "unique index = [0..k - 1]"
proof -
  have "sorted (unique index)" "distinct (unique index)" "set (unique index) = {0..k - 1}"
    using assms by (simp_all add: unique_def)
  moreover have "sorted [0..k - 1]" "distinct [0..k - 1]" "set [0..k - 1] = {0..k - 1}"
    by simp_all
  ultimately show ?thesis
    by (metis sorted_distinct_set_unique)
qed

lemma index_nonempty_pos:
  assumes "set (index :: int list) = {0..k - 1}" and "index \<noteq> []"
  shows "(0::int) < k"
proof -
  from assms have "{0..k - 1} \<noteq> {}" by (metis set_empty)
  then show ?thesis by simp
qed

lemma Max_index:
  assumes "set (index :: int list) = {0..k - 1}" and "index \<noteq> []"
  shows "Max (set index) + 1 = k"
proof -
  from index_nonempty_pos[OF assms] have "Max {0..k - 1} = k - 1"
    by (intro Max_eqI) auto
  with assms(1) show ?thesis by simp
qed

lemma out_naive_eq_scatter:
  assumes len: "length index = length src"
    and vals: "set index = {0..k - 1}"
  shows "\<exists>out. out_naive d src index = Inr out \<and> scatter d src index = Inr out"
proof -
  let ?sel = "\<lambda>j. map snd (filter (\<lambda>(k, r). k = int j) (zip index src))"
  have nn: "\<not> list_ex (\<lambda>k. k < 0) index"
    using vals by (auto simp: list_ex_iff)
  define n where "n = (if index = [] then 0 else nat k)"
  have un: "unique index = [0..k - 1]" by (rule unique_upto[OF vals])
  have lu: "length (unique index) = n"
  proof (cases "index = []")
    case True
    then show ?thesis by (simp add: n_def unique_def)
  next
    case False
    from index_nonempty_pos[OF vals False] have "0 < k" .
    then show ?thesis using False by (simp add: un n_def)
  qed
  have ds: "(if index = [] then 0 else Max (set index) + 1) = int n"
  proof (cases "index = []")
    case True
    then show ?thesis by (simp add: n_def)
  next
    case False
    with Max_index[OF vals False] index_nonempty_pos[OF vals False] show ?thesis
      by (simp add: n_def)
  qed
  have pre: "\<forall>i\<in>set (unique index). 0 \<le> i \<and> nat i < length (zeros n d)"
    using lu un by (auto simp: zeros_def)
  have "distinct (unique index)" by (simp add: unique_def)
  from naive_loop_result[OF len pre this, of d] obtain out where
    run: "naive_loop d src index (unique index) (zeros n d) = Inr out" and
    lo: "length out = n" and
    nth: "\<forall>j<n. out ! j =
            (if int j \<in> set (unique index) then sum_dim0 d (?sel j) else zeros n d ! j)"
    by (auto simp: zeros_def)
  have "scatter_add (zeros n d) index src = out"
  proof (rule nth_equalityI)
    show "length (scatter_add (zeros n d) index src) = length out"
      using lo by (simp add: zeros_def)
  next
    fix j assume "j < length (scatter_add (zeros n d) index src)"
    then have j: "j < n" by (simp add: zeros_def)
    then have jin: "int j \<in> set (unique index)" using lu un by auto
    have fe: "filter (\<lambda>(k, r). nat k = j) (zip index src) =
              filter (\<lambda>(k, r). k = int j) (zip index src)"
      using nn by (intro filter_cong) (auto simp: list_ex_iff dest!: set_zip_leftD)
    from j have "scatter_add (zeros n d) index src ! j =
        foldl vadd (replicate d 0) (?sel j)"
      by (simp add: scatter_add_nth zeros_def fe)
    with nth j jin show "scatter_add (zeros n d) index src ! j = out ! j"
      by (simp add: sum_dim0_def)
  qed
  then have "scatter d src index = Inr out"
    using len nn ds by (simp add: scatter_def Let_def)
  moreover have "out_naive d src index = Inr out"
    using run lu by (simp add: out_naive_def)
  ultimately show ?thesis by blast
qed



text \<open>
  C4. For a source tensor and an index vector with one entry per row whose values
  are exactly \<open>0, ..., k-1\<close>, the naive loop of the notebook and the library call
  \<open>scatter(src, index, dim=0, reduce="sum")\<close> both return, and return the same tensor:
  \<open>k\<close> rows, row \<open>i\<close> being the sum of the rows of \<open>src\<close> whose index is \<open>i\<close>.
\<close>

theorem naive_loop_refines_scatter:
  assumes "length index = length src" and "set index = {0..k - 1}"
  shows "\<exists>out. out_naive d src index = Inr out \<and> scatter d src index = Inr out \<and>
           int (length out) = max 0 k \<and>
           (\<forall>i<length out. out ! i =
              sum_dim0 d (map snd (filter (\<lambda>(j, r). j = int i) (zip index src))))"
proof -
  from out_naive_eq_scatter[OF assms, of d] obtain out where
    o: "out_naive d src index = Inr out" and s: "scatter d src index = Inr out"
    by blast
  have nn: "\<not> list_ex (\<lambda>j. j < 0) index"
    using assms(2) by (auto simp: list_ex_iff)
  have ds: "(if index = [] then 0 else Max (set index) + 1) = max 0 k"
  proof (cases "index = []")
    case True
    with assms(2) have "{0..k - 1} = {}" by (metis set_empty)
    then have "k \<le> 0" by simp
    with True show ?thesis by simp
  next
    case False
    with Max_index[OF assms(2) False] index_nonempty_pos[OF assms(2) False]
    show ?thesis by simp
  qed
  from s have out: "out = scatter_add (zeros (nat (max 0 k)) d) index src"
    using assms(1) nn ds by (simp add: scatter_def Let_def)
  have len: "int (length out) = max 0 k"
    by (simp add: out zeros_def)
  have "out ! i = sum_dim0 d (map snd (filter (\<lambda>(j, r). j = int i) (zip index src)))"
    if "i < length out" for i
  proof -
    have fe: "filter (\<lambda>(j, r). nat j = i) (zip index src) =
              filter (\<lambda>(j, r). j = int i) (zip index src)"
      using nn by (intro filter_cong) (auto simp: list_ex_iff dest!: set_zip_leftD)
    from that have "i < length (zeros (nat (max 0 k)) d)" by (simp add: out)
    then show ?thesis
      by (simp add: out scatter_add_nth zeros_def fe sum_dim0_def)
  qed
  with o s len show ?thesis by blast
qed

theorem naive_loop_refines_scatter_witness:
  "out_naive 1 [[1], [2], [3], [4], [5], [6]] [0, 1, 0, 1, 2, 1] = Inr [[4], [12], [5]] \<and>
   scatter 1 [[1], [2], [3], [4], [5], [6]] [0, 1, 0, 1, 2, 1] = Inr [[4], [12], [5]]"
proof -
  have h1: "length [0, 1, 0, 1, 2, 1 :: int] = length [[1], [2], [3], [4], [5], [6 :: real]]"
    by simp
  have h2: "set [0, 1, 0, 1, 2, 1 :: int] = {0..3 - 1}"
    by auto
  from naive_loop_refines_scatter[OF h1 h2, of 1] obtain out where
    o: "out_naive 1 [[1], [2], [3], [4], [5], [6]] [0, 1, 0, 1, 2, 1] = Inr out" and
    s: "scatter 1 [[1], [2], [3], [4], [5], [6]] [0, 1, 0, 1, 2, 1] = Inr out"
    by blast
  have "scatter 1 [[1], [2], [3], [4], [5], [6]] [0, 1, 0, 1, 2, 1] = Inr [[4], [12], [5]]"
    by (simp add: scatter_def scatter_add_def zeros_def vadd_def Let_def eval_nat_numeral)
  with o s show ?thesis by simp
qed

section \<open>The forward pass of NaiveGCNConv\<close>

lemma vadd_length: "length a = d \<Longrightarrow> length r = d \<Longrightarrow> length (vadd a r) = d"
  by (simp add: vadd_def)

lemma foldl_vadd_length:
  "length a = d \<Longrightarrow> \<forall>r\<in>set rs. length r = d \<Longrightarrow> length (foldl vadd a rs) = d"
  by (induction rs arbitrary: a) (simp_all add: vadd_length)

lemma foldl_vadd_nth:
  "length a = d \<Longrightarrow> \<forall>r\<in>set rs. length r = d \<Longrightarrow> c < d \<Longrightarrow>
   foldl vadd a rs ! c = a ! c + sum_list (map (\<lambda>r. r ! c) rs)"
proof (induction rs arbitrary: a)
  case Nil
  then show ?case by simp
next
  case (Cons r rs)
  have "length (vadd a r) = d" using Cons.prems by (simp add: vadd_length)
  from Cons.IH[OF this] Cons.prems show ?case
    by (simp add: vadd_def add.assoc)
qed

lemma sum_dim0_nth:
  "\<forall>r\<in>set rs. length r = d \<Longrightarrow> c < d \<Longrightarrow>
   sum_dim0 d rs ! c = sum_list (map (\<lambda>r. r ! c) rs)"
  by (simp add: sum_dim0_def foldl_vadd_nth[where d = d])

lemma affine_length: "length (affine W b r) = min (length W) (length b)"
  by (simp add: affine_def)

lemma messages_filter:
  "map snd (filter (\<lambda>(k, r). nat k = i) (zip (map snd ei) (map m ei))) =
   map m (filter (\<lambda>e. nat (snd e) = i) ei)"
  by (induction ei) auto

lemma propagate_add:
  assumes edges: "\<forall>(j, i)\<in>set ei. 0 \<le> j \<and> j < int (length t) \<and> 0 \<le> i \<and> i < int (length t)"
  shows "\<exists>out. propagate t ei = Inr out \<and> length out = length t \<and>
           (\<forall>i<length t. out ! i =
              sum_dim0 (width t) (map (\<lambda>e. t ! nat (fst e)) (filter (\<lambda>e. snd e = int i) ei)))"
proof -
  let ?msgs = "map (\<lambda>(j, i). t ! nat j) ei"
  let ?out = "scatter_add (zeros (length t) (width t)) (map snd ei) ?msgs"
  have ok: "\<not> list_ex (\<lambda>(j, i). j < 0 \<or> int (length t) \<le> j) ei"
    "\<not> list_ex (\<lambda>(j, i). int (length t) \<le> i) ei"
    "\<not> list_ex (\<lambda>(j, i). i < 0) ei"
    using edges by (fastforce simp: list_ex_iff)+
  then have run: "propagate t ei = Inr ?out"
    by (simp add: propagate_def Let_def)
  have nn: "\<forall>e\<in>set ei. 0 \<le> snd e" using edges by auto
  have "?out ! i =
        sum_dim0 (width t) (map (\<lambda>e. t ! nat (fst e)) (filter (\<lambda>e. snd e = int i) ei))"
    if "i < length t" for i
  proof -
    have fe: "filter (\<lambda>e. nat (snd e) = i) ei = filter (\<lambda>e. snd e = int i) ei"
      using nn by (intro filter_cong) auto
    have m: "(\<lambda>(j, i). t ! nat j) = (\<lambda>e. t ! nat (fst e))" by auto
    show ?thesis using that
      by (simp add: scatter_add_nth zeros_def messages_filter sum_dim0_def fe m)
  qed
  with run show ?thesis by (simp add: zeros_def)
qed

lemma NaiveGCNConv_forward_rows:
  assumes a: "aggr self = Aggr_add"
    and l: "gcn_linear self = Linear n_in W b"
    and ac: "gcn_act self = Activation name act"
    and shape: "\<forall>r\<in>set t. length r = n_in"
    and edges: "\<forall>(j, i)\<in>set ei. 0 \<le> j \<and> j < int (length t) \<and> 0 \<le> i \<and> i < int (length t)"
  shows "\<exists>out. NaiveGCNConv_forward self t ei = Inr out \<and> length out = length t \<and>
           (\<forall>i<length t. length (out ! i) = min (length W) (length b) \<and>
              (\<forall>c<min (length W) (length b). out ! i ! c =
                 act (\<Sum>e\<leftarrow>filter (\<lambda>e. snd e = int i) ei. affine W b (t ! nat (fst e)) ! c)))"
proof -
  let ?d = "min (length W) (length b)"
  let ?t1 = "map (affine W b) t"
  have lin: "module_forward (gcn_linear self) t = Inr ?t1"
    using shape by (simp add: l list_all_iff)
  have e1: "\<forall>(j, i)\<in>set ei. 0 \<le> j \<and> j < int (length ?t1) \<and> 0 \<le> i \<and> i < int (length ?t1)"
    using edges by simp
  from propagate_add[OF e1] obtain t2 where
    p: "propagate ?t1 ei = Inr t2" and
    len2: "length t2 = length t" and
    nth2: "\<forall>i<length t. t2 ! i =
       sum_dim0 (width ?t1) (map (\<lambda>e. ?t1 ! nat (fst e)) (filter (\<lambda>e. snd e = int i) ei))"
    by auto
  have run: "NaiveGCNConv_forward self t ei = Inr (map (map act) t2)"
    by (simp add: NaiveGCNConv_forward_def lin p ac)
  have row: "length (map (map act) t2 ! i) = ?d \<and>
      (\<forall>c<?d. map (map act) t2 ! i ! c =
         act (\<Sum>e\<leftarrow>filter (\<lambda>e. snd e = int i) ei. affine W b (t ! nat (fst e)) ! c))"
    if i: "i < length t" for i
  proof -
    from i have w: "width ?t1 = ?d"
      by (cases t) (simp_all add: width_def affine_length)
    let ?es = "filter (\<lambda>e. snd e = int i) ei"
    have valid: "\<forall>e\<in>set ?es. nat (fst e) < length t"
      using edges by auto
    then have ms: "map (\<lambda>e. ?t1 ! nat (fst e)) ?es = map (\<lambda>e. affine W b (t ! nat (fst e))) ?es"
      by (intro map_cong) auto
    have lens: "\<forall>r\<in>set (map (\<lambda>e. affine W b (t ! nat (fst e))) ?es). length r = ?d"
      by (auto simp: affine_length)
    have t2i: "t2 ! i = sum_dim0 ?d (map (\<lambda>e. affine W b (t ! nat (fst e))) ?es)"
    proof -
      from nth2 i have "t2 ! i = sum_dim0 (width ?t1) (map (\<lambda>e. ?t1 ! nat (fst e)) ?es)"
        by blast
      then show ?thesis by (simp only: w ms)
    qed
    have len: "length (t2 ! i) = ?d"
      unfolding t2i sum_dim0_def by (rule foldl_vadd_length) (use lens in auto)
    have "t2 ! i ! c = (\<Sum>e\<leftarrow>?es. affine W b (t ! nat (fst e)) ! c)" if "c < ?d" for c
      unfolding t2i using sum_dim0_nth[OF lens that] by (simp add: comp_def)
    with len i len2 show ?thesis by simp
  qed
  have "length (map (map act) t2) = length t" using len2 by simp
  with run row show ?thesis by blast
qed

text \<open>
  C9. For a layer with linear parameters \<open>W\<close>, \<open>b\<close>, activation \<open>act\<close> and the sum
  aggregation its constructor sets, and for node features that fit \<open>W\<close> and an edge
  index over the nodes, \<open>forward\<close> returns one row per node; entry \<open>c\<close> of row \<open>i\<close> is
  \<open>act\<close> of the sum over the edges \<open>(j, i)\<close> of entry \<open>c\<close> of \<open>W x_j + b\<close>. A node
  without incoming edges receives \<open>act(0)\<close> in every entry.
\<close>

theorem NaiveGCNConv_forward_sum:
  assumes "aggr self = Aggr_add"
    and "gcn_linear self = Linear n_in W b"
    and "gcn_act self = Activation name act"
    and "\<forall>r\<in>set t. length r = n_in"
    and "\<forall>(j, i)\<in>set ei. 0 \<le> j \<and> j < int (length t) \<and> 0 \<le> i \<and> i < int (length t)"
  shows "\<exists>out. NaiveGCNConv_forward self t ei = Inr out \<and> length out = length t \<and>
           (\<forall>i<length t. length (out ! i) = min (length W) (length b) \<and>
              (\<forall>c<min (length W) (length b). out ! i ! c =
                 act (\<Sum>e\<leftarrow>filter (\<lambda>e. snd e = int i) ei. affine W b (t ! nat (fst e)) ! c)) \<and>
              ((\<forall>e\<in>set ei. snd e \<noteq> int i) \<longrightarrow>
                 out ! i = replicate (min (length W) (length b)) (act 0)))"
proof -
  from NaiveGCNConv_forward_rows[OF assms] obtain out where
    run: "NaiveGCNConv_forward self t ei = Inr out" and
    len: "length out = length t" and
    rows: "\<forall>i<length t. length (out ! i) = min (length W) (length b) \<and>
              (\<forall>c<min (length W) (length b). out ! i ! c =
                 act (\<Sum>e\<leftarrow>filter (\<lambda>e. snd e = int i) ei. affine W b (t ! nat (fst e)) ! c))"
    by blast
  have "out ! i = replicate (min (length W) (length b)) (act 0)"
    if i: "i < length t" and none: "\<forall>e\<in>set ei. snd e \<noteq> int i" for i
  proof (rule nth_equalityI)
    show "length (out ! i) = length (replicate (min (length W) (length b)) (act 0))"
      using rows i by simp
  next
    fix c assume "c < length (out ! i)"
    with rows i have c: "c < min (length W) (length b)" by simp
    from none have "filter (\<lambda>e. snd e = int i) ei = []"
      by (simp add: filter_empty_conv)
    with rows i c show "out ! i ! c = replicate (min (length W) (length b)) (act 0) ! c"
      by simp
  qed
  with run len rows show ?thesis by blast
qed

theorem NaiveGCNConv_forward_sum_witness:
  "NaiveGCNConv_forward
     \<lparr>aggr = Aggr_add, gcn_linear = Linear 2 [[1, 2], [0, 1]] [1, - 5],
      gcn_act = Activation ''ReLU'' relu\<rparr>
     [[1, 1], [2, 0], [0, 3]] [(0, 1), (2, 1), (1, 0)] = Inr [[3, 0], [11, 0], [0, 0]]"
proof -
  let ?self = "\<lparr>aggr = Aggr_add, gcn_linear = Linear 2 [[1, 2], [0, 1]] [1, - 5],
      gcn_act = Activation ''ReLU'' relu\<rparr>"
  let ?t = "[[1, 1], [2, 0], [0, 3 :: real]]"
  let ?ei = "[(0, 1), (2, 1), (1, 0 :: int)]"
  have h1: "aggr ?self = Aggr_add" by simp
  have h2: "gcn_linear ?self = Linear 2 [[1, 2], [0, 1]] [1, - 5]" by simp
  have h3: "gcn_act ?self = Activation ''ReLU'' relu" by simp
  have h4: "\<forall>r\<in>set ?t. length r = 2" by simp
  have h5: "\<forall>(j, i)\<in>set ?ei. 0 \<le> j \<and> j < int (length ?t) \<and> 0 \<le> i \<and> i < int (length ?t)"
    by simp
  from NaiveGCNConv_forward_sum[OF h1 h2 h3 h4 h5] obtain out where
    run: "NaiveGCNConv_forward ?self ?t ?ei = Inr out" and
    len: "length out = length ?t" and
    rows: "\<forall>i<length ?t. length (out ! i) = min (length [[1, 2], [0, 1 :: real]]) (length [1, - 5 :: real]) \<and>
              (\<forall>c<min (length [[1, 2], [0, 1 :: real]]) (length [1, - 5 :: real]). out ! i ! c =
                 relu (\<Sum>e\<leftarrow>filter (\<lambda>e. snd e = int i) ?ei.
                    affine [[1, 2], [0, 1]] [1, - 5] (?t ! nat (fst e)) ! c))"
    by blast
  have "NaiveGCNConv_forward ?self ?t ?ei = Inr [[3, 0], [11, 0], [0, 0]]"
    by (simp add: NaiveGCNConv_forward_def propagate_def scatter_add_def zeros_def vadd_def
        width_def affine_def relu_def Let_def eval_nat_numeral)
  with run show ?thesis by simp
qed

section \<open>The scatter cell of 2.gnn\<close>









section \<open>Feature tensors of the graphs the notebooks build\<close>

lemma randn_shape:
  "randn n d g = Inr (t, g') \<Longrightarrow> has_shape (nat n) (nat d) t"
  by (auto simp: randn_def has_shape_def list_all_iff split: if_splits)

lemma generate_er_graph_shape:
  assumes "generate_er_graph n p d g = Inr (gr, g')"
  shows "has_shape (nat n) (nat d) (x gr) \<and> edge_attr gr = None \<and>
         (\<exists>du. dummy gr = Some du \<and> has_shape (nat n) 32 du)"
proof -
  from assms obtain ei g1 xs g2 du where
    "randn n d g1 = Inr (xs, g2)" and "randn n 32 g2 = Inr (du, g')" and
    "x gr = xs" and "edge_attr gr = None" and "dummy gr = Some du"
    by (auto simp: generate_er_graph_def Let_def split: sum.splits prod.splits)
  then show ?thesis using randn_shape[of n d g1 xs g2] randn_shape[of n 32 g2 du g']
    by simp
qed

lemma erdos_renyi_graph_edges:
  assumes "erdos_renyi_graph n p g = Inr (ei, g')" and "(s, t) \<in> set ei"
  shows "0 \<le> s \<and> s < n \<and> 0 \<le> t \<and> t < n \<and> s \<noteq> t \<and> (t, s) \<in> set ei"
proof -
  define idx where "idx = concat (map (\<lambda>i. map (\<lambda>j. (i, j)) [i + 1..n - 1]) [0..n - 1])"
  obtain u g1 where r: "rand (length idx) g = (u, g1)" by (cases "rand (length idx) g")
  define kept where "kept = map fst (filter (\<lambda>(e, s). s < p) (zip idx u))"
  from assms(1) r have ei: "ei = sort (remdups (kept @ map prod.swap kept))"
    by (auto simp: erdos_renyi_graph_def Let_def idx_def kept_def split: if_splits)
  have sub: "set kept \<subseteq> set idx"
    by (auto simp: kept_def dest: set_zip_leftD)
  have idx: "0 \<le> a \<and> a < b \<and> b < n" if "(a, b) \<in> set idx" for a b
    using that by (auto simp: idx_def)
  have sei: "set ei = set kept \<union> prod.swap ` set kept"
    unfolding ei by simp
  have sw: "(a, b) \<in> prod.swap ` A \<longleftrightarrow> (b, a) \<in> A" for a b :: int and A
    by force
  from assms(2) have c: "(s, t) \<in> set kept \<or> (t, s) \<in> set kept"
    unfolding sei Un_iff sw .
  then have both: "(s, t) \<in> set ei \<and> (t, s) \<in> set ei"
    unfolding sei Un_iff sw by blast
  from c sub have "(s, t) \<in> set idx \<or> (t, s) \<in> set idx" by blast
  with idx[of s t] idx[of t s] both show ?thesis by auto
qed

lemma generate_er_graph_edges:
  assumes "generate_er_graph n p d g = Inr (gr, g')" and "(s, t) \<in> set (edge_index gr)"
  shows "0 \<le> s \<and> s < n \<and> 0 \<le> t \<and> t < n"
proof -
  from assms(1) obtain ei g1 where
    "erdos_renyi_graph n p g = Inr (ei, g1)" and "edge_index gr = ei"
    by (auto simp: generate_er_graph_def Let_def split: sum.splits prod.splits)
  with erdos_renyi_graph_edges[of n p g ei g1 s t] assms(2) show ?thesis by simp
qed

lemma dgl_graph_first:
  "dgl_graph ([0, 0, 0, 1], [1, 2, 3, 3]) None =
     Inr \<lparr>n_nodes = 4, edges = [(0, 1), (0, 2), (0, 3), (1, 3)],
          ndata = Map.empty, edata = Map.empty\<rparr>"
  by (simp add: dgl_graph_def Let_def)

lemma dgl_graph_second:
  "dgl_graph ([0, 0, 0, 1], [1, 2, 3, 3]) (Some 8) =
     Inr \<lparr>n_nodes = 8, edges = [(0, 1), (0, 2), (0, 3), (1, 3)],
          ndata = Map.empty, edata = Map.empty\<rparr>"
  by (simp add: dgl_graph_def Let_def)

lemma dgl_tutorial_result:
  "\<exists>nf g1 ef g2. randn 8 7 g = Inr (nf, g1) \<and> randn 4 3 g1 = Inr (ef, g2) \<and>
     dgl_tutorial g =
       Inr (\<lparr>n_nodes = 8, edges = [(0, 1), (0, 2), (0, 3), (1, 3)],
             ndata = [''feat'' \<mapsto> nf], edata = [''feat'' \<mapsto> ef]\<rparr>, g2)"
proof -
  obtain nf g1 where n: "randn 8 7 g = Inr (nf, g1)" by (auto simp: randn_def)
  obtain ef g2 where e: "randn 4 3 g1 = Inr (ef, g2)" by (auto simp: randn_def)
  from randn_rows[OF n] have ln: "length nf = 8" by simp
  from randn_rows[OF e] have le: "length ef = 4" by simp
  have "dgl_tutorial g =
       Inr (\<lparr>n_nodes = 8, edges = [(0, 1), (0, 2), (0, 3), (1, 3)],
             ndata = [''feat'' \<mapsto> nf], edata = [''feat'' \<mapsto> ef]\<rparr>, g2)"
    by (simp add: dgl_tutorial_def dgl_graph_first dgl_graph_second Let_def
        number_of_nodes_def number_of_edges_def n e set_ndata_def set_edata_def ln le)
  with n e show ?thesis by blast
qed

text \<open>
  Feature tensors of two of the graphs built in the notebooks: the graph
  returned by \<open>generate_er_graph\<close> has one row of \<open>feat_dim\<close> features per node, its
  edges join nodes that have a row, and it has no edge features; the graph of the DGL
  tutorial has one row of 7 features for each of its 8 nodes and one row of 3 features
  for each of its 4 edges.
\<close>

lemma graph_features_consistent:
  "(generate_er_graph n p d g = Inr (gr, g') \<longrightarrow>
      int (num_nodes gr) = n \<and> has_shape (num_nodes gr) (nat d) (x gr) \<and> edge_attr gr = None \<and>
      (\<forall>(s, t)\<in>set (edge_index gr).
         0 \<le> s \<and> s < int (num_nodes gr) \<and> 0 \<le> t \<and> t < int (num_nodes gr)))
   \<and> (\<exists>dg g2 nf ef. dgl_tutorial g = Inr (dg, g2) \<and> n_nodes dg = 8 \<and> length (edges dg) = 4 \<and>
         ndata dg ''feat'' = Some nf \<and> has_shape (n_nodes dg) 7 nf \<and>
         edata dg ''feat'' = Some ef \<and> has_shape (length (edges dg)) 3 ef)"
proof (intro conjI impI)
  assume a: "generate_er_graph n p d g = Inr (gr, g')"
  from generate_er_graph_num_nodes[OF a] show nn: "int (num_nodes gr) = n" .
  then have "num_nodes gr = nat n" by simp
  with generate_er_graph_shape[OF a] show "has_shape (num_nodes gr) (nat d) (x gr)" by simp
  from generate_er_graph_shape[OF a] show "edge_attr gr = None" by simp
  from generate_er_graph_edges[OF a] nn
  show "\<forall>(s, t)\<in>set (edge_index gr).
         0 \<le> s \<and> s < int (num_nodes gr) \<and> 0 \<le> t \<and> t < int (num_nodes gr)"
    by auto
next
  from dgl_tutorial_result[of g] obtain nf g1 ef g2 where
    n: "randn 8 7 g = Inr (nf, g1)" and e: "randn 4 3 g1 = Inr (ef, g2)" and
    r: "dgl_tutorial g =
       Inr (\<lparr>n_nodes = 8, edges = [(0, 1), (0, 2), (0, 3), (1, 3)],
             ndata = [''feat'' \<mapsto> nf], edata = [''feat'' \<mapsto> ef]\<rparr>, g2)"
    by blast
  from randn_shape[OF n] have "has_shape 8 7 nf" by simp
  moreover from randn_shape[OF e] have "has_shape (Suc (Suc (Suc (Suc 0)))) 3 ef"
    by (simp add: eval_nat_numeral)
  ultimately show "\<exists>dg g2 nf ef. dgl_tutorial g = Inr (dg, g2) \<and> n_nodes dg = 8 \<and>
         length (edges dg) = 4 \<and>
         ndata dg ''feat'' = Some nf \<and> has_shape (n_nodes dg) 7 nf \<and>
         edata dg ''feat'' = Some ef \<and> has_shape (length (edges dg)) 3 ef"
    using r by simp
qed

lemma graph_features_consistent_witness:
  "\<exists>gr g'. generate_er_graph 3 (1 / 2) 2 \<lparr>ints = (\<lambda>k. k), reals = real\<rparr> = Inr (gr, g') \<and>
     x gr = [[3, 4], [5, 6], [7, 8]] \<and> num_nodes gr = 3 \<and> has_shape 3 2 (x gr) \<and>
     edge_attr gr = None"
proof -
  let ?g = "\<lparr>ints = (\<lambda>k. k), reals = real\<rparr>"
  from generate_er_graph_succeeds[of 3 2 "1 / 2" ?g] obtain gr g' where
    a: "generate_er_graph 3 (1 / 2) 2 ?g = Inr (gr, g')" by auto
  from graph_features_consistent[of 3 "1 / 2" 2 ?g gr g'] a
  have s: "int (num_nodes gr) = 3" "has_shape (num_nodes gr) (nat 2) (x gr)" "edge_attr gr = None"
    by auto
  have "x gr = [[3, 4], [5, 6], [7, 8]]"
    using a
    by (auto simp: generate_er_graph_def erdos_renyi_graph_def rand_def randn_def Let_def
        skip_reals_def eval_nat_numeral upto.simps split: prod.splits sum.splits)
  with a s show ?thesis by auto
qed

section \<open>Where errors come from\<close>



















section \<open>What the layer constructors create\<close>

text \<open>
  C6 as stated fails: the constructor of \<open>AttentiveINLayer\<close> creates three feed-forward
  sub-networks, the gate network of its aggregation besides \<open>f\<close> and \<open>g\<close>.
\<close>

theorem AttentiveINLayer_three_networks:
  "length (AttentiveINLayer_networks
     (fst (AttentiveINLayer_init 1 \<lparr>ints = (\<lambda>k. k), reals = real\<rparr>))) = 3"
  by (simp add: AttentiveINLayer_networks_def AttentiveINLayer_init_def Linear_init_def
      Let_def)

text \<open>
  C6, amended. Every layer class of the notebook is a configuration of the base class
  \<open>MessagePassing\<close>: its constructor sets one aggregation and creates one to three
  feed-forward sub-networks. \<open>NaiveGCNConv\<close> (sum) and \<open>EdgeConv\<close> (maximum) create
  one, \<open>InteractionNetworkLayer\<close> (sum) two, and \<open>AttentiveINLayer\<close> three: \<open>f\<close>, \<open>g\<close>
  and the gate network that its attentional aggregation owns.
\<close>

theorem layer_constructors:
  "(NaiveGCNConv_init nn dm act_name g = Inr (l1, g1) \<longrightarrow>
      aggr l1 = Aggr_add \<and> length (NaiveGCNConv_networks l1) = 1)
   \<and> aggr (fst (EdgeConv_init dm g)) = Aggr_max
   \<and> length (EdgeConv_networks (fst (EdgeConv_init dm g))) = 1
   \<and> aggr (fst (InteractionNetworkLayer_init dm g)) = Aggr_add
   \<and> length (InteractionNetworkLayer_networks (fst (InteractionNetworkLayer_init dm g))) = 2
   \<and> (\<exists>gate_nn. aggr (fst (AttentiveINLayer_init dm g)) = AttentionalAggregation gate_nn
         \<and> is_feed_forward gate_nn)
   \<and> length (AttentiveINLayer_networks (fst (AttentiveINLayer_init dm g))) = 3"
proof (intro conjI impI)
  assume "NaiveGCNConv_init nn dm act_name g = Inr (l1, g1)"
  then show "aggr l1 = Aggr_add" and "length (NaiveGCNConv_networks l1) = 1"
    by (auto simp: NaiveGCNConv_init_def NaiveGCNConv_networks_def Linear_init_def Let_def
        split: option.splits)
next
  show "aggr (fst (EdgeConv_init dm g)) = Aggr_max"
    by (simp add: EdgeConv_init_def Linear_init_def Let_def)
  show "length (EdgeConv_networks (fst (EdgeConv_init dm g))) = 1"
    by (simp add: EdgeConv_init_def EdgeConv_networks_def Linear_init_def Let_def)
  show "aggr (fst (InteractionNetworkLayer_init dm g)) = Aggr_add"
    by (simp add: InteractionNetworkLayer_init_def Linear_init_def Let_def)
  show "length (InteractionNetworkLayer_networks (fst (InteractionNetworkLayer_init dm g))) = 2"
    by (simp add: InteractionNetworkLayer_init_def InteractionNetworkLayer_networks_def
        Linear_init_def Let_def)
  show "\<exists>gate_nn. aggr (fst (AttentiveINLayer_init dm g)) = AttentionalAggregation gate_nn
         \<and> is_feed_forward gate_nn"
    by (simp add: AttentiveINLayer_init_def Linear_init_def Let_def)
  show "length (AttentiveINLayer_networks (fst (AttentiveINLayer_init dm g))) = 3"
    by (simp add: AttentiveINLayer_init_def AttentiveINLayer_networks_def Linear_init_def
        Let_def)
qed

theorem layer_constructors_witness:
  "\<exists>l1 g1. NaiveGCNConv_init (\<lambda>s. if s = ''ReLU'' then Some relu else None) 2 ''ReLU''
       \<lparr>ints = (\<lambda>k. k), reals = real\<rparr> = Inr (l1, g1)
     \<and> gcn_linear l1 = Linear 2 [[0, 1], [2, 3]] [4, 5]
     \<and> aggr l1 = Aggr_add \<and> length (NaiveGCNConv_networks l1) = 1"
proof -
  let ?nn = "\<lambda>s. if s = ''ReLU'' then Some relu else None"
  let ?g = "\<lparr>ints = (\<lambda>k. k), reals = real\<rparr>"
  let ?l = "\<lparr>aggr = Aggr_add, gcn_linear = Linear 2 [[0, 1], [2, 3]] [4, 5],
             gcn_act = Activation ''ReLU'' relu\<rparr>"
  have i: "NaiveGCNConv_init ?nn 2 ''ReLU'' ?g = Inr (?l, skip_reals 6 ?g)"
    by (simp add: NaiveGCNConv_init_def Linear_init_def Let_def eval_nat_numeral)
  from layer_constructors[of ?nn 2 "''ReLU''" ?g ?l "skip_reals 6 ?g"] i
  have "aggr ?l = Aggr_add \<and> length (NaiveGCNConv_networks ?l) = 1"
    by blast
  with i show ?thesis by simp
qed

section \<open>Batching\<close>

lemma collate_result:
  "collate ds i off b = Inr b' \<Longrightarrow>
     x b' = x b @ concat (map x ds) \<and>
     batch b' = batch b @
       concat (map (\<lambda>(k, d). replicate (num_nodes d) (int k)) (enumerate i ds))"
proof (induction ds arbitrary: i off b)
  case Nil
  then show ?case by simp
next
  case (Cons d ds)
  from Cons.prems obtain ea ys du where
    r: "collate ds (i + 1) (off + num_nodes d)
          (b\<lparr>x := x b @ x d,
             edge_index := edge_index b @
               map (\<lambda>(s, t). (s + int off, t + int off)) (edge_index d),
             edge_attr := ea, y := ys, dummy := du,
             batch := batch b @ replicate (num_nodes d) (int i),
             ptr := ptr b @ [int (off + num_nodes d)]\<rparr>) = Inr b'"
    by (auto split: sum.splits)
  from Cons.IH[OF r] show ?case by simp
qed

lemma membership_length:
  "length (concat (map (\<lambda>(k, d). replicate (num_nodes d) (int k)) (enumerate i ds)))
     = sum_list (map num_nodes ds)"
  by (induction ds arbitrary: i) simp_all

lemma membership_nth:
  "k < length ds \<Longrightarrow> j < num_nodes (ds ! k) \<Longrightarrow>
   concat (map (\<lambda>(k, d). replicate (num_nodes d) (int k)) (enumerate i ds))
     ! (sum_list (map num_nodes (take k ds)) + j) = int (i + k)"
proof (induction ds arbitrary: i k)
  case Nil
  then show ?case by simp
next
  case (Cons d ds)
  show ?case
  proof (cases k)
    case 0
    with Cons.prems show ?thesis by (simp add: nth_append)
  next
    case (Suc k')
    with Cons.prems have "k' < length ds" and "j < num_nodes (ds ! k')" by simp_all
    from Cons.IH[OF this, of "Suc i"] Suc show ?thesis
      by (simp add: nth_append add.assoc)
  qed
qed

lemma concat_length_nodes:
  "length (concat (map x ds)) = sum_list (map num_nodes ds)"
  by (induction ds) (simp_all add: num_nodes_def)

text \<open>
  C5. The batch built from a list of graphs concatenates them: its node-feature
  matrix is the row-wise concatenation of the graphs' matrices in list order, its
  node count is the sum of their node counts, and its \<open>batch\<close> vector has one entry
  per node, the position in the list of the graph the node came from.
\<close>

theorem from_data_list_concatenates:
  assumes "from_data_list exclude_keys data_list = Inr b"
  shows "x b = concat (map x data_list) \<and>
         num_nodes b = sum_list (map num_nodes data_list) \<and>
         length (batch b) = num_nodes b \<and>
         (\<forall>k<length data_list. \<forall>j<num_nodes (data_list ! k).
            batch b ! (sum_list (map num_nodes (take k data_list)) + j) = int k)"
proof -
  from assms obtain d ds where dl: "data_list = d # ds"
    by (cases data_list) (auto simp: from_data_list_def)
  let ?b0 = "\<lparr>x = x d, edge_index = edge_index d,
             edge_attr = keep_attr exclude_keys ''edge_attr'' (edge_attr d),
             y = keep_attr exclude_keys ''y'' (y d),
             dummy = keep_attr exclude_keys ''dummy'' (dummy d),
             batch = replicate (num_nodes d) 0,
             ptr = [0, int (num_nodes d)]\<rparr>"
  from assms dl have c: "collate ds 1 (num_nodes d) ?b0 = Inr b"
    by (simp add: from_data_list_def)
  let ?m = "\<lambda>i ds. concat (map (\<lambda>(k, d). replicate (num_nodes d) (int k))
                          (enumerate i ds))"
  from collate_result[OF c] have xb: "x b = x d @ concat (map x ds)"
    and bb: "batch b = replicate (num_nodes d) 0 @ ?m 1 ds"
    by simp_all
  have bm: "batch b = ?m 0 data_list"
    unfolding dl bb by simp
  have 1: "x b = concat (map x data_list)" using xb dl by simp
  have 2: "num_nodes b = sum_list (map num_nodes data_list)"
    using concat_length_nodes[of data_list] 1 by (simp add: num_nodes_def)
  have 3: "length (batch b) = num_nodes b"
    unfolding bm using membership_length[of 0 data_list] 2 by simp
  have 4: "batch b ! (sum_list (map num_nodes (take k data_list)) + j) = int k"
    if "k < length data_list" and "j < num_nodes (data_list ! k)" for k j
    unfolding bm using membership_nth[OF that, of 0] by simp
  from 1 2 3 4 show ?thesis by blast
qed

theorem from_data_list_concatenates_witness:
  "from_data_list [''dummy'']
     [\<lparr>x = [[1, 2]], edge_index = [], edge_attr = None, y = None, dummy = Some [[0]]\<rparr>,
      \<lparr>x = [[3, 4], [5, 6]], edge_index = [(0, 1), (1, 0)], edge_attr = None, y = None,
       dummy = Some [[0], [0]]\<rparr>]
   = Inr \<lparr>x = [[1, 2], [3, 4], [5, 6]], edge_index = [(1, 2), (2, 1)], edge_attr = None,
          y = None, dummy = None, batch = [0, 1, 1], ptr = [0, 1, 3]\<rparr>"
proof -
  let ?dl = "[\<lparr>x = [[1, 2]], edge_index = [], edge_attr = None, y = None, dummy = Some [[0]]\<rparr>,
      \<lparr>x = [[3, 4], [5, 6 :: real]], edge_index = [(0, 1), (1, 0)], edge_attr = None, y = None,
       dummy = Some [[0], [0]]\<rparr>]"
  let ?b = "\<lparr>x = [[1, 2], [3, 4], [5, 6]], edge_index = [(1, 2), (2, 1)], edge_attr = None,
          y = None, dummy = None, batch = [0, 1, 1], ptr = [0, 1, 3]\<rparr>"
  have r: "from_data_list [''dummy''] ?dl = Inr ?b"
    by (simp add: from_data_list_def keep_attr_def num_nodes_def)
  from from_data_list_concatenates[OF r] have "length (batch ?b) = num_nodes ?b"
    by blast
  with r show ?thesis by simp
qed

end
